theory Spec2Isabelle
  imports Complex_Main "HOL-Library.Monad_Syntax"
begin

section \<open>Numbers and vectors\<close>

text \<open>
  The source computes on JavaScript numbers, the binary64 numbers of IEEE 754. This theory
  has two embeddings of them.

  In the first, every finite number is a \<^typ>\<open>real\<close> with exact arithmetic (rounding,
  overflow and signed zeros are not modelled). JavaScript never raises on arithmetic: a
  division by zero or the square root of a negative number yields \<open>Infinity\<close> or \<open>NaN\<close>,
  and in the functions below every such value ends as a non-finite result. These outcomes
  are the value \<open>None\<close> of type \<open>num\<close>; a division whose divisor is a non-zero literal of
  the source (\<open>E / 2\<close>, \<open>/ dt\<close> with \<open>dt = 0.001\<close>) is written with the plain \<open>/\<close>. This
  embedding says which expressions the code evaluates. It carries KeplerianOrbit.js, whose
  \<open>Math.sin\<close>, \<open>Math.cos\<close> and \<open>Math.atan2\<close> the language leaves to the implementation, and
  the guard of Gravity.js at coincident positions.

  In the second (type \<open>double\<close>, below) a number is a finite real, an infinity or \<open>NaN\<close>,
  and every operation rounds its exact result to the nearest binary64 number, ties to
  even. It carries the properties of Gravity.js that depend on rounding.
\<close>

type_synonym num = "real option"

definition js_div :: "real \<Rightarrow> real \<Rightarrow> num" where
  "js_div a b = (if b = 0 then None else Some (a / b))"

definition js_sqrt :: "real \<Rightarrow> num" where
  "js_sqrt a = (if a < 0 then None else Some (sqrt a))"

text \<open>\<open>Math.atan2(y, x)\<close> on finite arguments: the angle of the point \<open>(x, y)\<close> in
  \<open>(-\<pi>, \<pi>]\<close>, and \<open>0\<close> at the origin.\<close>

definition atan2 :: "real \<Rightarrow> real \<Rightarrow> real" where
  "atan2 b a =
     (if 0 < a then arctan (b / a)
      else if a < 0 then (if 0 \<le> b then arctan (b / a) + pi else arctan (b / a) - pi)
      else if 0 < b then pi / 2
      else if b < 0 then - (pi / 2)
      else 0)"

record vec3 =
  x :: real
  y :: real
  z :: real

section \<open>Gravity.js\<close>

text \<open>In exact arithmetic.\<close>

definition G :: real where
  "G = 667430 / 10 ^ 16"

definition SCALE :: real where
  "SCALE = 10 ^ 9"

definition calculateForce :: "real \<Rightarrow> real \<Rightarrow> vec3 \<Rightarrow> vec3 \<Rightarrow> vec3 option" where
  "calculateForce m1 m2 pos1 pos2 =
     (let dx = x pos2 - x pos1;
          dy = y pos2 - y pos1;
          dz = z pos2 - z pos1;
          rSquared = dx * dx + dy * dy + dz * dz
      in do {
        r \<leftarrow> js_sqrt rSquared;
        if r = 0 then Some \<lparr>x = 0, y = 0, z = 0\<rparr>
        else do {
          F \<leftarrow> js_div (G * m1 * m2) rSquared;
          fx \<leftarrow> js_div (F * dx) r;
          fy \<leftarrow> js_div (F * dy) r;
          fz \<leftarrow> js_div (F * dz) r;
          Some \<lparr>x = fx, y = fy, z = fz\<rparr>
        }
      })"

definition calculateAcceleration :: "real \<Rightarrow> vec3 \<Rightarrow> vec3 \<Rightarrow> vec3 option" where
  "calculateAcceleration m2 pos1 pos2 =
     (let dx = x pos2 - x pos1;
          dy = y pos2 - y pos1;
          dz = z pos2 - z pos1;
          rSquared = dx * dx + dy * dy + dz * dz
      in do {
        r \<leftarrow> js_sqrt rSquared;
        if r = 0 then Some \<lparr>x = 0, y = 0, z = 0\<rparr>
        else do {
          a \<leftarrow> js_div (G * m2) rSquared;
          ax \<leftarrow> js_div (a * dx) r;
          ay \<leftarrow> js_div (a * dy) r;
          az \<leftarrow> js_div (a * dz) r;
          Some \<lparr>x = ax, y = ay, z = az\<rparr>
        }
      })"

section \<open>KeplerianOrbit.js\<close>

text \<open>
  The orbital elements are read from a JavaScript object by a destructuring pattern with
  defaults. A field that is absent from the object (or \<open>undefined\<close>) is \<open>None\<close>.
\<close>

record elements =
  semiMajorAxis :: "real option"
  eccentricity :: "real option"
  inclination :: "real option"
  longitudeOfAscendingNode :: "real option"
  argumentOfPeriapsis :: "real option"
  meanAnomalyAtEpoch :: "real option"
  orbitalPeriod :: "real option"

text \<open>A destructuring default, and the default of a parameter: \<open>field = d\<close>.\<close>

definition orDefault :: "real option \<Rightarrow> real \<Rightarrow> real" where
  "orDefault v d = (case v of None \<Rightarrow> d | Some w \<Rightarrow> w)"

text \<open>The loop \<open>for (let i = 0; i < 6; i++) E = M + eccentricity * Math.sin(E)\<close>,
  from the state \<open>(i, E)\<close>.\<close>

function keplerLoop :: "nat \<Rightarrow> real \<Rightarrow> real \<Rightarrow> real \<Rightarrow> real" where
  "keplerLoop i M e E = (if i < 6 then keplerLoop (i + 1) M e (M + e * sin E) else E)"
  by pat_completeness auto
termination
  by (relation "measure (\<lambda>(i, M, e, E). 6 - i)") auto

declare keplerLoop.simps [simp del]

text \<open>The second half of \<open>getOrbitalPosition\<close>, from the eccentric anomaly on: true
  anomaly, distance from the focus, position in the orbital plane, rotation into space.\<close>

definition positionFromAnomaly ::
  "real \<Rightarrow> real \<Rightarrow> real \<Rightarrow> real \<Rightarrow> real \<Rightarrow> real \<Rightarrow> vec3 option" where
  "positionFromAnomaly a e inc Omega omega E = do {
     s1 \<leftarrow> js_sqrt (1 + e);
     s2 \<leftarrow> js_sqrt (1 - e);
     let nu = 2 * atan2 (s1 * sin (E / 2)) (s2 * cos (E / 2));
     let r = a * (1 - e * cos E);
     let xOrb = r * cos nu;
     let yOrb = r * sin nu;
     let cosO = cos Omega;
     let sinO = sin Omega;
     let cosI = cos inc;
     let sinI = sin inc;
     let cosW = cos omega;
     let sinW = sin omega;
     Some \<lparr>x = xOrb * (cosO * cosW - sinO * sinW * cosI) -
                 yOrb * (cosO * sinW + sinO * cosW * cosI),
           y = xOrb * (sinO * cosW + cosO * sinW * cosI) -
                 yOrb * (sinO * sinW - cosO * cosW * cosI),
           z = xOrb * (sinW * sinI) + yOrb * (cosW * sinI)\<rparr>
   }"

definition getOrbitalPosition :: "elements \<Rightarrow> real \<Rightarrow> vec3 option" where
  "getOrbitalPosition elements time =
     (let a = orDefault (semiMajorAxis elements) 10;
          e = orDefault (eccentricity elements) 0;
          inc = orDefault (inclination elements) 0;
          Omega = orDefault (longitudeOfAscendingNode elements) 0;
          omega = orDefault (argumentOfPeriapsis elements) 0;
          M0 = orDefault (meanAnomalyAtEpoch elements) 0;
          T = orDefault (orbitalPeriod elements) 1
      in do {
        q \<leftarrow> js_div (2 * pi * time) T;
        let M = M0 + q;
        let E = keplerLoop 0 M e M;
        positionFromAnomaly a e inc Omega omega E
      })"

text \<open>The parameter \<open>mu = 1\<close> is \<open>None\<close> when the caller omits it.\<close>

definition getOrbitalVelocity :: "elements \<Rightarrow> real \<Rightarrow> real option \<Rightarrow> vec3 option" where
  "getOrbitalVelocity elements time mu_arg =
     (let mu = orDefault mu_arg 1;
          dt = 0.001
      in do {
        pos1 \<leftarrow> getOrbitalPosition elements time;
        pos2 \<leftarrow> getOrbitalPosition elements (time + dt);
        Some \<lparr>x = (x pos2 - x pos1) / dt,
              y = (y pos2 - y pos1) / dt,
              z = (z pos2 - z pos1) / dt\<rparr>
      })"

definition calculatePeriod :: "real \<Rightarrow> real \<Rightarrow> num" where
  "calculatePeriod a mu = do {
     q \<leftarrow> js_div (a * a * a) mu;
     s \<leftarrow> js_sqrt q;
     Some (2 * pi * s)
   }"

section \<open>Binary64 arithmetic\<close>

text \<open>
  A JavaScript number: a finite value, \<open>+Infinity\<close>, \<open>-Infinity\<close> or \<open>NaN\<close>. The two zeros
  \<open>+0\<close> and \<open>-0\<close> are one value \<open>Fin 0\<close> (they are equal under \<open>===\<close>), and a division
  by zero takes its divisor as \<open>+0\<close>. Equality of \<open>double\<close> values is equality of data:
  \<open>NaN\<close> equals \<open>NaN\<close>.
\<close>

datatype double = Fin real | PInf | NInf | NaN

text \<open>
  Rounding to nearest, ties to even. The binade of \<open>v\<close> is the exponent \<open>e\<close> with
  \<open>2\<^sup>e \<le> |v| < 2\<^sup>e\<^sup>+\<^sup>1\<close>, and \<open>-1022\<close> for subnormal \<open>v\<close>; the doubles of that binade
  are the integer multiples of \<open>ulp v = 2\<^sup>e\<^sup>-\<^sup>5\<^sup>2\<close>. \<open>rne\<close> is the nearest integer, the even one
  at a tie. A rounded value of magnitude \<open>2\<^sup>1\<^sup>0\<^sup>2\<^sup>4\<close> or more is an infinity.
\<close>

definition binade :: "real \<Rightarrow> int" where
  "binade v = (if \<bar>v\<bar> < 2 powr (- 1022) then - 1022 else \<lfloor>log 2 \<bar>v\<bar>\<rfloor>)"

definition ulp :: "real \<Rightarrow> real" where
  "ulp v = 2 powr (of_int (binade v) - 52)"

definition rne :: "real \<Rightarrow> int" where
  "rne q = (let f = \<lfloor>q\<rfloor>; d = q - of_int f
            in if d < 1 / 2 then f
               else if 1 / 2 < d then f + 1
               else if even f then f else f + 1)"

definition rounded :: "real \<Rightarrow> real" where
  "rounded v = of_int (rne (v / ulp v)) * ulp v"

definition rnd :: "real \<Rightarrow> double" where
  "rnd v = (if 2 ^ 1024 \<le> rounded v then PInf
            else if rounded v \<le> - (2 ^ 1024) then NInf
            else Fin (rounded v))"

text \<open>
  The operations \<open>-x\<close>, \<open>+\<close>, \<open>-\<close>, \<open>*\<close>, \<open>/\<close> and \<open>Math.sqrt\<close>: the exact result,
  rounded, with the rules of IEEE 754 for infinities and \<open>NaN\<close>.
\<close>

fun fneg :: "double \<Rightarrow> double" where
  "fneg (Fin a) = Fin (- a)"
| "fneg PInf = NInf"
| "fneg NInf = PInf"
| "fneg NaN = NaN"

fun fadd :: "double \<Rightarrow> double \<Rightarrow> double" where
  "fadd (Fin a) (Fin b) = rnd (a + b)"
| "fadd (Fin a) PInf = PInf"
| "fadd (Fin a) NInf = NInf"
| "fadd PInf (Fin b) = PInf"
| "fadd NInf (Fin b) = NInf"
| "fadd PInf PInf = PInf"
| "fadd NInf NInf = NInf"
| "fadd PInf NInf = NaN"
| "fadd NInf PInf = NaN"
| "fadd NaN b = NaN"
| "fadd a NaN = NaN"

definition fsub :: "double \<Rightarrow> double \<Rightarrow> double" where
  "fsub a b = fadd a (fneg b)"

fun fmul :: "double \<Rightarrow> double \<Rightarrow> double" where
  "fmul (Fin a) (Fin b) = rnd (a * b)"
| "fmul (Fin a) PInf = (if a = 0 then NaN else if 0 < a then PInf else NInf)"
| "fmul (Fin a) NInf = (if a = 0 then NaN else if 0 < a then NInf else PInf)"
| "fmul PInf (Fin b) = (if b = 0 then NaN else if 0 < b then PInf else NInf)"
| "fmul NInf (Fin b) = (if b = 0 then NaN else if 0 < b then NInf else PInf)"
| "fmul PInf PInf = PInf"
| "fmul NInf NInf = PInf"
| "fmul PInf NInf = NInf"
| "fmul NInf PInf = NInf"
| "fmul NaN b = NaN"
| "fmul a NaN = NaN"

fun fdiv :: "double \<Rightarrow> double \<Rightarrow> double" where
  "fdiv (Fin a) (Fin b) =
     (if b = 0 then (if a = 0 then NaN else if 0 < a then PInf else NInf) else rnd (a / b))"
| "fdiv (Fin a) PInf = Fin 0"
| "fdiv (Fin a) NInf = Fin 0"
| "fdiv PInf (Fin b) = (if 0 \<le> b then PInf else NInf)"
| "fdiv NInf (Fin b) = (if 0 \<le> b then NInf else PInf)"
| "fdiv PInf PInf = NaN"
| "fdiv NInf NInf = NaN"
| "fdiv PInf NInf = NaN"
| "fdiv NInf PInf = NaN"
| "fdiv NaN b = NaN"
| "fdiv a NaN = NaN"

fun fsqrt :: "double \<Rightarrow> double" where
  "fsqrt (Fin a) = (if a < 0 then NaN else rnd (sqrt a))"
| "fsqrt PInf = PInf"
| "fsqrt NInf = NaN"
| "fsqrt NaN = NaN"

text \<open>The comparison \<open>a <= b\<close> of JavaScript (false when either side is \<open>NaN\<close>), and the
  signs of a number: \<open>notNegative\<close> holds of \<open>NaN\<close>, of zero and of every positive number.\<close>

fun dle :: "double \<Rightarrow> double \<Rightarrow> bool" where
  "dle (Fin a) (Fin b) = (a \<le> b)"
| "dle (Fin a) PInf = True"
| "dle (Fin a) NInf = False"
| "dle PInf (Fin b) = False"
| "dle NInf (Fin b) = True"
| "dle PInf PInf = True"
| "dle NInf NInf = True"
| "dle NInf PInf = True"
| "dle PInf NInf = False"
| "dle NaN b = False"
| "dle a NaN = False"

definition notNegative :: "double \<Rightarrow> bool" where
  "notNegative d = (case d of Fin a \<Rightarrow> 0 \<le> a | PInf \<Rightarrow> True | NInf \<Rightarrow> False | NaN \<Rightarrow> True)"

definition notPositive :: "double \<Rightarrow> bool" where
  "notPositive d = (case d of Fin a \<Rightarrow> a \<le> 0 | PInf \<Rightarrow> False | NInf \<Rightarrow> True | NaN \<Rightarrow> True)"


section \<open>Gravity.js in binary64\<close>

text \<open>
  The functions of Gravity.js once more, every operation rounded. The literal
  \<open>6.67430e-11\<close> denotes the double nearest to it.
\<close>

definition G64 :: double where
  "G64 = rnd (667430 / 10 ^ 16)"

record vec64 =
  x64 :: double
  y64 :: double
  z64 :: double

definition calculateForce64 :: "double \<Rightarrow> double \<Rightarrow> vec64 \<Rightarrow> vec64 \<Rightarrow> vec64" where
  "calculateForce64 m1 m2 pos1 pos2 =
     (let dx = fsub (x64 pos2) (x64 pos1);
          dy = fsub (y64 pos2) (y64 pos1);
          dz = fsub (z64 pos2) (z64 pos1);
          rSquared = fadd (fadd (fmul dx dx) (fmul dy dy)) (fmul dz dz);
          r = fsqrt rSquared
      in if r = Fin 0 then \<lparr>x64 = Fin 0, y64 = Fin 0, z64 = Fin 0\<rparr>
         else (let F = fdiv (fmul (fmul G64 m1) m2) rSquared
               in \<lparr>x64 = fdiv (fmul F dx) r,
                   y64 = fdiv (fmul F dy) r,
                   z64 = fdiv (fmul F dz) r\<rparr>))"

definition orbitalVelocity64 :: "double \<Rightarrow> double \<Rightarrow> double" where
  "orbitalVelocity64 m r = fsqrt (fdiv (fmul G64 m) r)"


section \<open>Properties of Gravity.js in exact arithmetic\<close>

text \<open>
  C1. When the two positions coincide, \<open>calculateForce\<close> and
  \<open>calculateAcceleration\<close> return exactly the zero vector for all masses: the result
  is a finite vector, so no division by \<open>r\<close> or \<open>r\<^sup>2\<close> (which would give a non-finite
  value at \<open>r = 0\<close>) was evaluated.
\<close>

theorem coincident_positions_zero:
  "pos1 = pos2 \<Longrightarrow>
     calculateForce m1 m2 pos1 pos2 = Some \<lparr>x = 0, y = 0, z = 0\<rparr> \<and>
     calculateAcceleration m2 pos1 pos2 = Some \<lparr>x = 0, y = 0, z = 0\<rparr>"
  by (simp add: calculateForce_def calculateAcceleration_def js_sqrt_def)

theorem coincident_positions_zero_witness:
  "calculateForce 5 7 \<lparr>x = 1, y = 2, z = 3\<rparr> \<lparr>x = 1, y = 2, z = 3\<rparr> = Some \<lparr>x = 0, y = 0, z = 0\<rparr> \<and>
   calculateAcceleration 7 \<lparr>x = 1, y = 2, z = 3\<rparr> \<lparr>x = 1, y = 2, z = 3\<rparr> = Some \<lparr>x = 0, y = 0, z = 0\<rparr>"
  using coincident_positions_zero
    [where ?pos1.0 = "\<lparr>x = 1, y = 2, z = 3\<rparr>" and ?pos2.0 = "\<lparr>x = 1, y = 2, z = 3\<rparr>"
       and ?m1.0 = 5 and ?m2.0 = 7]
  by simp

section \<open>Properties of KeplerianOrbit.js\<close>

lemma keplerLoop_funpow:
  "i \<le> 6 \<Longrightarrow> keplerLoop i M e E = ((\<lambda>E. M + e * sin E) ^^ (6 - i)) E"
proof (induction i M e E rule: keplerLoop.induct)
  case (1 i M e E)
  show ?case
  proof (cases "i < 6")
    case True
    then have s: "6 - i = Suc (6 - (i + 1))" by simp
    have "keplerLoop i M e E = keplerLoop (i + 1) M e (M + e * sin E)"
      using True by (subst keplerLoop.simps) simp
    also have "\<dots> = ((\<lambda>E. M + e * sin E) ^^ (6 - (i + 1))) (M + e * sin E)"
      using True by (intro "1.IH") simp_all
    also have "\<dots> = ((\<lambda>E. M + e * sin E) ^^ (6 - i)) E"
      unfolding s by (simp only: funpow_Suc_right o_apply)
    finally show ?thesis .
  next
    case False
    with "1.prems" have "i = 6" by simp
    then show ?thesis
      by (subst keplerLoop.simps) simp
  qed
qed

lemma positionFromAnomaly_formula:
  "positionFromAnomaly a e inc Omega omega E =
     (if e < - 1 \<or> 1 < e then None
      else (let nu = 2 * atan2 (sqrt (1 + e) * sin (E / 2)) (sqrt (1 - e) * cos (E / 2));
                r = a * (1 - e * cos E);
                xOrb = r * cos nu;
                yOrb = r * sin nu;
                cosO = cos Omega; sinO = sin Omega;
                cosI = cos inc; sinI = sin inc;
                cosW = cos omega; sinW = sin omega
            in Some \<lparr>x = xOrb * (cosO * cosW - sinO * sinW * cosI) -
                          yOrb * (cosO * sinW + sinO * cosW * cosI),
                      y = xOrb * (sinO * cosW + cosO * sinW * cosI) -
                          yOrb * (sinO * sinW - cosO * cosW * cosI),
                      z = xOrb * (sinW * sinI) + yOrb * (cosW * sinI)\<rparr>))"
  by (auto simp add: positionFromAnomaly_def js_sqrt_def Let_def)



lemma keplerLoop_circular: "keplerLoop 0 M 0 M = M"
  by (simp add: keplerLoop_funpow eval_nat_numeral)





text \<open>
  C2. \<open>getOrbitalPosition\<close> takes the mean anomaly \<open>M = M0 + 2\<pi> time / T\<close> as it is (no
  reduction into \<open>[0, 2\<pi>)\<close>) and continues with the eccentric anomaly that is the 6-fold
  iterate of \<open>E \<mapsto> M + e sin E\<close> from \<open>M\<close>: six iterations, whatever the values. With
  \<open>T = 0\<close> the quotient, and with it the result, is not finite.
\<close>

theorem kepler_six_iterations:
  "getOrbitalPosition elements time =
     (let a = orDefault (semiMajorAxis elements) 10;
          e = orDefault (eccentricity elements) 0;
          inc = orDefault (inclination elements) 0;
          Omega = orDefault (longitudeOfAscendingNode elements) 0;
          omega = orDefault (argumentOfPeriapsis elements) 0;
          M0 = orDefault (meanAnomalyAtEpoch elements) 0;
          T = orDefault (orbitalPeriod elements) 1
      in if T = 0 then None
         else (let M = M0 + 2 * pi * time / T;
                   E = ((\<lambda>E. M + e * sin E) ^^ 6) M
               in positionFromAnomaly a e inc Omega omega E)) \<and>
   keplerLoop 0 M' e' M' = ((\<lambda>E. M' + e' * sin E) ^^ 6) M'"
  by (simp add: getOrbitalPosition_def Let_def js_div_def keplerLoop_funpow)

theorem kepler_six_iterations_witness:
  "getOrbitalPosition
     \<lparr>semiMajorAxis = Some 100, eccentricity = Some (1 / 2), inclination = None,
      longitudeOfAscendingNode = None, argumentOfPeriapsis = None, meanAnomalyAtEpoch = None,
      orbitalPeriod = Some 365\<rparr> 0 =
   positionFromAnomaly 100 (1 / 2) 0 0 0 (((\<lambda>E. 0 + 1 / 2 * sin E) ^^ 6) 0)"
  using kepler_six_iterations
    [of "\<lparr>semiMajorAxis = Some 100, eccentricity = Some (1 / 2), inclination = None,
      longitudeOfAscendingNode = None, argumentOfPeriapsis = None, meanAnomalyAtEpoch = None,
      orbitalPeriod = Some 365\<rparr>" 0 0 0, THEN conjunct1]
  by (simp add: orDefault_def)

text \<open>
  C3. From the eccentric anomaly \<open>E\<close> that the loop leaves, \<open>getOrbitalPosition\<close> returns
  the result of the stated pipeline: true anomaly, radius, coordinates in the orbital
  plane and the rotation by the three angles. Outside \<open>-1 \<le> e \<le> 1\<close> a square root of the
  pipeline is not a number, and so is the result.
\<close>

theorem position_pipeline:
  "getOrbitalPosition elements time =
     (let a = orDefault (semiMajorAxis elements) 10;
          e = orDefault (eccentricity elements) 0;
          inc = orDefault (inclination elements) 0;
          Omega = orDefault (longitudeOfAscendingNode elements) 0;
          omega = orDefault (argumentOfPeriapsis elements) 0;
          M0 = orDefault (meanAnomalyAtEpoch elements) 0;
          T = orDefault (orbitalPeriod elements) 1
      in if T = 0 \<or> e < - 1 \<or> 1 < e then None
         else (let M = M0 + 2 * pi * time / T;
                   E = keplerLoop 0 M e M;
                   nu = 2 * atan2 (sqrt (1 + e) * sin (E / 2)) (sqrt (1 - e) * cos (E / 2));
                   r = a * (1 - e * cos E);
                   xOrb = r * cos nu;
                   yOrb = r * sin nu;
                   cosO = cos Omega; sinO = sin Omega;
                   cosI = cos inc; sinI = sin inc;
                   cosW = cos omega; sinW = sin omega
               in Some \<lparr>x = xOrb * (cosO * cosW - sinO * sinW * cosI) -
                             yOrb * (cosO * sinW + sinO * cosW * cosI),
                         y = xOrb * (sinO * cosW + cosO * sinW * cosI) -
                             yOrb * (sinO * sinW - cosO * cosW * cosI),
                         z = xOrb * (sinW * sinI) + yOrb * (cosW * sinI)\<rparr>))"
  by (simp add: getOrbitalPosition_def positionFromAnomaly_formula Let_def js_div_def)

theorem position_pipeline_witness:
  "getOrbitalPosition \<lparr>semiMajorAxis = None, eccentricity = None, inclination = None, longitudeOfAscendingNode = None, argumentOfPeriapsis = None, meanAnomalyAtEpoch = None, orbitalPeriod = None\<rparr> 0 =
     Some \<lparr>x = 10, y = 0, z = 0\<rparr>"
  using position_pipeline [of "\<lparr>semiMajorAxis = None, eccentricity = None, inclination = None, longitudeOfAscendingNode = None, argumentOfPeriapsis = None, meanAnomalyAtEpoch = None, orbitalPeriod = None\<rparr>" 0]
  by (simp add: orDefault_def keplerLoop_circular atan2_def)




text \<open>
  C6. \<open>getOrbitalVelocity\<close> is the component-wise forward difference of the positions at
  \<open>time\<close> and \<open>time + 0.001\<close>, divided by \<open>0.001\<close>; the argument \<open>mu\<close> has no effect on
  the result.
\<close>

theorem velocity_forward_difference:
  "getOrbitalVelocity elements time mu =
     (case getOrbitalPosition elements time of
        None \<Rightarrow> None
      | Some p1 \<Rightarrow>
          (case getOrbitalPosition elements (time + 0.001) of
             None \<Rightarrow> None
           | Some p2 \<Rightarrow> Some \<lparr>x = (x p2 - x p1) / 0.001,
                              y = (y p2 - y p1) / 0.001,
                              z = (z p2 - z p1) / 0.001\<rparr>)) \<and>
   getOrbitalVelocity elements time mu = getOrbitalVelocity elements time mu'"
  by (simp add: getOrbitalVelocity_def Let_def split: option.splits)

theorem velocity_forward_difference_witness:
  "getOrbitalVelocity \<lparr>semiMajorAxis = None, eccentricity = None, inclination = None, longitudeOfAscendingNode = None, argumentOfPeriapsis = None, meanAnomalyAtEpoch = None, orbitalPeriod = None\<rparr> 0 (Some 1) =
   getOrbitalVelocity \<lparr>semiMajorAxis = None, eccentricity = None, inclination = None, longitudeOfAscendingNode = None, argumentOfPeriapsis = None, meanAnomalyAtEpoch = None, orbitalPeriod = None\<rparr> 0 (Some 2)"
  using velocity_forward_difference [of "\<lparr>semiMajorAxis = None, eccentricity = None, inclination = None, longitudeOfAscendingNode = None, argumentOfPeriapsis = None, meanAnomalyAtEpoch = None, orbitalPeriod = None\<rparr>" 0 "Some 1" "Some 2"]
  by (rule conjunct2)

text \<open>
  C7. A call with absent fields gives the result of the call with every absent field set
  to its default (\<open>a = 10\<close>, \<open>e = 0\<close>, \<open>i = 0\<close>, \<open>\<Omega> = 0\<close>, \<open>\<omega> = 0\<close>, \<open>M0 = 0\<close>,
  \<open>T = 1\<close>), for the seven fields together and for each of them alone. The source only
  reads the record (a destructuring into local constants), so the function of the
  embedding returns no changed record.
\<close>

theorem absent_fields_default:
  "getOrbitalPosition el t =
     getOrbitalPosition
       \<lparr>semiMajorAxis = Some (orDefault (semiMajorAxis el) 10),
        eccentricity = Some (orDefault (eccentricity el) 0),
        inclination = Some (orDefault (inclination el) 0),
        longitudeOfAscendingNode = Some (orDefault (longitudeOfAscendingNode el) 0),
        argumentOfPeriapsis = Some (orDefault (argumentOfPeriapsis el) 0),
        meanAnomalyAtEpoch = Some (orDefault (meanAnomalyAtEpoch el) 0),
        orbitalPeriod = Some (orDefault (orbitalPeriod el) 1)\<rparr> t \<and>
   (semiMajorAxis el = None \<longrightarrow>
      getOrbitalPosition el t = getOrbitalPosition (el\<lparr>semiMajorAxis := Some 10\<rparr>) t) \<and>
   (eccentricity el = None \<longrightarrow>
      getOrbitalPosition el t = getOrbitalPosition (el\<lparr>eccentricity := Some 0\<rparr>) t) \<and>
   (inclination el = None \<longrightarrow>
      getOrbitalPosition el t = getOrbitalPosition (el\<lparr>inclination := Some 0\<rparr>) t) \<and>
   (longitudeOfAscendingNode el = None \<longrightarrow>
      getOrbitalPosition el t = getOrbitalPosition (el\<lparr>longitudeOfAscendingNode := Some 0\<rparr>) t) \<and>
   (argumentOfPeriapsis el = None \<longrightarrow>
      getOrbitalPosition el t = getOrbitalPosition (el\<lparr>argumentOfPeriapsis := Some 0\<rparr>) t) \<and>
   (meanAnomalyAtEpoch el = None \<longrightarrow>
      getOrbitalPosition el t = getOrbitalPosition (el\<lparr>meanAnomalyAtEpoch := Some 0\<rparr>) t) \<and>
   (orbitalPeriod el = None \<longrightarrow>
      getOrbitalPosition el t = getOrbitalPosition (el\<lparr>orbitalPeriod := Some 1\<rparr>) t)"
  by (simp add: getOrbitalPosition_def orDefault_def)

theorem absent_fields_default_witness:
  "getOrbitalPosition \<lparr>semiMajorAxis = None, eccentricity = None, inclination = None, longitudeOfAscendingNode = None, argumentOfPeriapsis = None, meanAnomalyAtEpoch = None, orbitalPeriod = None\<rparr> 3 =
   getOrbitalPosition
     \<lparr>semiMajorAxis = Some 10, eccentricity = Some 0, inclination = Some 0,
      longitudeOfAscendingNode = Some 0, argumentOfPeriapsis = Some 0,
      meanAnomalyAtEpoch = Some 0, orbitalPeriod = Some 1\<rparr> 3 \<and>
   semiMajorAxis \<lparr>semiMajorAxis = None, eccentricity = None, inclination = None, longitudeOfAscendingNode = None, argumentOfPeriapsis = None, meanAnomalyAtEpoch = None, orbitalPeriod = None\<rparr> = None \<and>
   getOrbitalPosition \<lparr>semiMajorAxis = None, eccentricity = None, inclination = None, longitudeOfAscendingNode = None, argumentOfPeriapsis = None, meanAnomalyAtEpoch = None, orbitalPeriod = None\<rparr> 3 =
   getOrbitalPosition (\<lparr>semiMajorAxis = None, eccentricity = None, inclination = None, longitudeOfAscendingNode = None, argumentOfPeriapsis = None, meanAnomalyAtEpoch = None, orbitalPeriod = None\<rparr>\<lparr>semiMajorAxis := Some 10\<rparr>) 3"
proof -
  note inst = absent_fields_default
    [of "\<lparr>semiMajorAxis = None, eccentricity = None, inclination = None, longitudeOfAscendingNode = None, argumentOfPeriapsis = None, meanAnomalyAtEpoch = None, orbitalPeriod = None\<rparr>" 3]
  from inst [THEN conjunct1] have all_fields: "getOrbitalPosition \<lparr>semiMajorAxis = None, eccentricity = None, inclination = None, longitudeOfAscendingNode = None, argumentOfPeriapsis = None, meanAnomalyAtEpoch = None, orbitalPeriod = None\<rparr> 3 =
   getOrbitalPosition
     \<lparr>semiMajorAxis = Some 10, eccentricity = Some 0, inclination = Some 0,
      longitudeOfAscendingNode = Some 0, argumentOfPeriapsis = Some 0,
      meanAnomalyAtEpoch = Some 0, orbitalPeriod = Some 1\<rparr> 3"
    by (simp add: orDefault_def)
  from inst [THEN conjunct2, THEN conjunct1] have one_field: "getOrbitalPosition \<lparr>semiMajorAxis = None, eccentricity = None, inclination = None, longitudeOfAscendingNode = None, argumentOfPeriapsis = None, meanAnomalyAtEpoch = None, orbitalPeriod = None\<rparr> 3 =
   getOrbitalPosition (\<lparr>semiMajorAxis = None, eccentricity = None, inclination = None, longitudeOfAscendingNode = None, argumentOfPeriapsis = None, meanAnomalyAtEpoch = None, orbitalPeriod = None\<rparr>\<lparr>semiMajorAxis := Some 10\<rparr>) 3"
    by simp
  from all_fields one_field show ?thesis
    by (intro conjI) simp_all
qed

text \<open>
  C9. \<open>calculatePeriod a mu\<close> is \<open>2\<pi> sqrt (a\<^sup>3 / mu)\<close> with no guard: where the quotient or
  the root is not a finite number (\<open>mu = 0\<close>, or a negative quotient), neither is the result.
\<close>

theorem calculatePeriod_formula:
  "calculatePeriod a mu =
     (if mu = 0 \<or> a ^ 3 / mu < 0 then None else Some (2 * pi * sqrt (a ^ 3 / mu)))"
  by (simp add: calculatePeriod_def js_div_def js_sqrt_def power3_eq_cube)

theorem calculatePeriod_formula_witness:
  "calculatePeriod 1 1 = Some (2 * pi) \<and> calculatePeriod 1 0 = None"
  using calculatePeriod_formula [of 1 1] calculatePeriod_formula [of 1 0]
  by simp

section \<open>Rounding\<close>

lemma rne_of_int [simp]: "rne (of_int n) = n"
  by (simp add: rne_def)

lemma rne_0 [simp]: "rne 0 = 0"
  using rne_of_int [of 0] by simp

lemma rne_near:
  assumes "\<bar>q - of_int n\<bar> < 1 / 2"
  shows "rne q = n"
proof (cases "of_int n \<le> q")
  case True
  with assms have "\<lfloor>q\<rfloor> = n" by (intro floor_unique) linarith+
  with assms True show ?thesis by (simp add: rne_def Let_def)
next
  case False
  have n1: "real_of_int (n - 1) = of_int n - 1" by simp
  have f: "\<lfloor>q\<rfloor> = n - 1"
  proof (rule floor_unique)
    show "of_int (n - 1) \<le> q" unfolding n1 using assms by linarith
    show "q < of_int (n - 1) + 1" unfolding n1 using False by linarith
  qed
  have "1 / 2 < q - of_int (n - 1)" using assms False by simp
  with f show ?thesis by (simp add: rne_def Let_def)
qed

lemma rne_bounds: "of_int (rne q) \<le> q + 1 / 2" "q - 1 / 2 \<le> of_int (rne q)"
proof -
  have "of_int \<lfloor>q\<rfloor> \<le> q" "q < of_int \<lfloor>q\<rfloor> + 1" by linarith+
  then show "of_int (rne q) \<le> q + 1 / 2" "q - 1 / 2 \<le> of_int (rne q)"
    unfolding rne_def Let_def by (simp_all, linarith+)
qed

lemma rne_mono:
  assumes "a \<le> b"
  shows "rne a \<le> rne b"
proof (cases "\<lfloor>a\<rfloor> = \<lfloor>b\<rfloor>")
  case True
  with assms show ?thesis
    by (auto simp add: rne_def Let_def)
next
  case False
  with assms have lt: "\<lfloor>a\<rfloor> + 1 \<le> \<lfloor>b\<rfloor>"
    using floor_mono [OF assms] by linarith
  have "rne a \<le> \<lfloor>a\<rfloor> + 1" by (simp add: rne_def Let_def)
  moreover have "\<lfloor>b\<rfloor> \<le> rne b" by (simp add: rne_def Let_def)
  ultimately show ?thesis using lt by linarith
qed


lemma ulp_pos: "0 < ulp v"
  by (simp add: ulp_def)



lemma binade_ge: "- 1022 \<le> binade v"
proof (cases "\<bar>v\<bar> < 2 powr (- 1022)")
  case True
  then show ?thesis by (simp add: binade_def)
next
  case False
  then have ge: "2 powr (- 1022) \<le> \<bar>v\<bar>" by simp
  then have pos: "0 < \<bar>v\<bar>" using powr_gt_zero [of 2 "- 1022"] by linarith
  have "log 2 (2 powr (- 1022)) \<le> log 2 \<bar>v\<bar>"
    using ge pos by (subst log_le_cancel_iff) simp_all
  then have "- 1022 \<le> log 2 \<bar>v\<bar>" by simp
  then have "- 1022 \<le> \<lfloor>log 2 \<bar>v\<bar>\<rfloor>" by (simp add: le_floor_iff)
  with False show ?thesis by (simp add: binade_def)
qed

lemma binade_upper: "\<bar>v\<bar> < 2 powr (of_int (binade v) + 1)"
proof (cases "\<bar>v\<bar> < 2 powr (- 1022)")
  case True
  have "(2::real) powr (- 1022) \<le> 2 powr (- 1021)" by (intro powr_mono) simp_all
  with True have "\<bar>v\<bar> < 2 powr (- 1021)" by linarith
  with True show ?thesis by (simp add: binade_def)
next
  case False
  then have ge: "2 powr (- 1022) \<le> \<bar>v\<bar>" by simp
  then have pos: "0 < \<bar>v\<bar>" using powr_gt_zero [of 2 "- 1022"] by linarith
  have "log 2 \<bar>v\<bar> < of_int \<lfloor>log 2 \<bar>v\<bar>\<rfloor> + 1" by linarith
  then have "2 powr (log 2 \<bar>v\<bar>) < 2 powr (of_int \<lfloor>log 2 \<bar>v\<bar>\<rfloor> + 1)"
    by (intro powr_less_mono) simp_all
  then have "\<bar>v\<bar> < 2 powr (of_int \<lfloor>log 2 \<bar>v\<bar>\<rfloor> + 1)"
    using pos by simp
  with False show ?thesis by (simp add: binade_def)
qed

lemma binade_lower:
  assumes "2 powr (- 1022) \<le> \<bar>v\<bar>"
  shows "2 powr (of_int (binade v)) \<le> \<bar>v\<bar>"
proof -
  from assms have pos: "0 < \<bar>v\<bar>" using powr_gt_zero [of 2 "- 1022"] by linarith
  have "of_int \<lfloor>log 2 \<bar>v\<bar>\<rfloor> \<le> log 2 \<bar>v\<bar>" by linarith
  then have "2 powr (of_int \<lfloor>log 2 \<bar>v\<bar>\<rfloor>) \<le> 2 powr (log 2 \<bar>v\<bar>)"
    by (intro powr_mono) simp_all
  then have "2 powr (of_int \<lfloor>log 2 \<bar>v\<bar>\<rfloor>) \<le> \<bar>v\<bar>"
    using pos by simp
  with assms show ?thesis by (simp add: binade_def)
qed

lemma binade_eq:
  assumes "- 1022 \<le> e" and "2 powr (of_int e) \<le> \<bar>v\<bar>" and "\<bar>v\<bar> < 2 powr (of_int e + 1)"
  shows "binade v = e"
proof -
  have "(2::real) powr (- 1022) \<le> 2 powr (of_int e)"
    using assms(1) by (intro powr_mono) simp_all
  with assms(2) have ge: "2 powr (- 1022) \<le> \<bar>v\<bar>" by linarith
  then have pos: "0 < \<bar>v\<bar>" using powr_gt_zero [of 2 "- 1022"] by linarith
  have "log 2 (2 powr (of_int e)) \<le> log 2 \<bar>v\<bar>"
    using assms(2) pos by (subst log_le_cancel_iff) simp_all
  then have 1: "of_int e \<le> log 2 \<bar>v\<bar>" by simp
  have "log 2 \<bar>v\<bar> < log 2 (2 powr (of_int e + 1))"
    using assms(3) pos by (subst log_less_cancel_iff) simp_all
  then have 2: "log 2 \<bar>v\<bar> < of_int e + 1" by simp
  from 1 2 have "\<lfloor>log 2 \<bar>v\<bar>\<rfloor> = e" by (intro floor_unique)
  with ge show ?thesis by (simp add: binade_def)
qed

lemma binade_mono:
  assumes "\<bar>a\<bar> \<le> \<bar>b\<bar>"
  shows "binade a \<le> binade b"
proof (cases "\<bar>a\<bar> < 2 powr (- 1022)")
  case True
  then show ?thesis using binade_ge [of b] by (simp add: binade_def)
next
  case False
  then have ga: "2 powr (- 1022) \<le> \<bar>a\<bar>" by simp
  then have pa: "0 < \<bar>a\<bar>" using powr_gt_zero [of 2 "- 1022"] by linarith
  from ga assms have gb: "2 powr (- 1022) \<le> \<bar>b\<bar>" by linarith
  have "log 2 \<bar>a\<bar> \<le> log 2 \<bar>b\<bar>"
    using assms pa by (subst log_le_cancel_iff) simp_all
  then have "\<lfloor>log 2 \<bar>a\<bar>\<rfloor> \<le> \<lfloor>log 2 \<bar>b\<bar>\<rfloor>" by (rule floor_mono)
  with ga gb show ?thesis by (simp add: binade_def)
qed

lemma rnd_rounded:
  "rnd v = (if 2 ^ 1024 \<le> rounded v then PInf
            else if rounded v \<le> - (2 ^ 1024) then NInf else Fin (rounded v))"
  by (simp add: rnd_def)



lemma rounded_tiny:
  assumes "\<bar>v\<bar> < 2 powr (- 1075)"
  shows "rounded v = 0"
proof -
  have "(2::real) powr (- 1075) \<le> 2 powr (- 1022)" by (intro powr_mono) simp_all
  with assms have small: "\<bar>v\<bar> < 2 powr (- 1022)" by linarith
  then have u: "ulp v = 2 powr (- 1074)" by (simp add: ulp_def binade_def)
  have "(2::real) powr (- 1075) = 2 powr (- 1074) * (1 / 2)"
    using powr_add [of "2::real" "- 1074" "- 1"] by (simp add: powr_minus)
  with assms have "\<bar>v\<bar> < 2 powr (- 1074) * (1 / 2)" by simp
  then have "\<bar>v\<bar> / 2 powr (- 1074) < 1 / 2"
    by (simp add: pos_divide_less_eq mult.commute)
  then have "\<bar>v / ulp v - of_int 0\<bar> < 1 / 2" by (simp add: u)
  then have "rne (v / ulp v) = 0" by (rule rne_near)
  then show ?thesis by (simp add: rounded_def)
qed

lemma rnd_tiny: "\<bar>v\<bar> < 2 powr (- 1075) \<Longrightarrow> rnd v = Fin 0"
  by (simp add: rnd_rounded rounded_tiny)

lemma powr_shift: "2 powr (c + real n) = 2 ^ n * (2::real) powr c"
  by (simp add: powr_add powr_realpow)

lemma rounded_exact:
  assumes v: "v = of_int m * 2 powr (of_int k)" and m: "\<bar>m\<bar> < 2 ^ 53" and k: "- 1074 \<le> k"
  shows "rounded v = v"
proof -
  define j where "j = k - (binade v - 52)"
  define u where "u = ulp v"
  have u0: "0 < u" by (simp add: u_def ulp_pos)
  have j: "0 \<le> j"
  proof (cases "\<bar>v\<bar> < 2 powr (- 1022)")
    case True
    then show ?thesis using k by (simp add: j_def binade_def)
  next
    case False
    then have "2 powr (of_int (binade v)) \<le> \<bar>v\<bar>" by (intro binade_lower) simp
    also have "\<bar>v\<bar> = of_int \<bar>m\<bar> * 2 powr (of_int k)" by (simp add: v abs_mult)
    also have "\<dots> < 2 ^ 53 * 2 powr (of_int k)"
    proof -
      have "(of_int \<bar>m\<bar> :: real) < of_int (2 ^ 53)" using m by (simp only: of_int_less_iff)
      then show ?thesis by simp
    qed
    also have "\<dots> = 2 powr (of_int k + real 53)"
      by (simp only: powr_shift)
    finally have "real_of_int (binade v) < of_int k + real 53" by simp
    then have "binade v < 53 + k" by linarith
    then show ?thesis by (simp add: j_def)
  qed
  have "real_of_int k = (of_int (binade v) - 52) + real (nat j)"
    using j by (simp add: j_def)
  then have "2 powr (real_of_int k) = 2 powr ((of_int (binade v) - 52) + real (nat j))"
    by (simp only:)
  also have "\<dots> = 2 ^ nat j * u"
    by (simp only: powr_shift u_def ulp_def)
  finally have pk: "2 powr (real_of_int k) = 2 ^ nat j * u" .
  have vu: "v = of_int (m * 2 ^ nat j) * u"
    by (simp add: v pk)
  then have "v / u = of_int (m * 2 ^ nat j)" using u0 by simp
  then have "rne (v / u) = m * 2 ^ nat j" by (simp only: rne_of_int)
  then have "rounded v = of_int (m * 2 ^ nat j) * u" by (simp add: rounded_def u_def)
  with vu show ?thesis by simp
qed

lemma rnd_exact:
  assumes "v = of_int m * 2 powr (of_int k)" and "\<bar>m\<bar> < 2 ^ 53" and "- 1074 \<le> k"
    and "\<bar>v\<bar> < 2 ^ 1024"
  shows "rnd v = Fin v"
proof -
  from assms(4) have "v < 2 ^ 1024" "- (2 ^ 1024) < v" by linarith+
  then show ?thesis by (simp add: rnd_rounded rounded_exact [OF assms(1-3)])
qed

lemma rounded_nearest:
  assumes e: "- 1022 \<le> e" and lo: "2 powr (of_int e) \<le> \<bar>v\<bar>" and hi: "\<bar>v\<bar> < 2 powr (of_int e + 1)"
    and near: "\<bar>v - of_int n * 2 powr (of_int e - 52)\<bar> < 2 powr (of_int e - 53)"
  shows "rounded v = of_int n * 2 powr (of_int e - 52)"
proof -
  have b: "binade v = e" by (rule binade_eq [OF e lo hi])
  then have u: "ulp v = 2 powr (of_int e - 52)" by (simp add: ulp_def)
  have half: "(2::real) powr (of_int e - 53) = ulp v * (1 / 2)"
    using powr_add [of "2::real" "of_int e - 52" "- 1"] by (simp add: u powr_minus)
  have "\<bar>v / ulp v - of_int n\<bar> = \<bar>v - of_int n * ulp v\<bar> / ulp v"
    using ulp_pos [of v] by (simp add: field_simps abs_if)
  also have "\<dots> < 1 / 2"
    using near ulp_pos [of v] unfolding half u [symmetric]
    by (simp add: pos_divide_less_eq mult.commute)
  finally have "rne (v / ulp v) = n" by (rule rne_near)
  then show ?thesis by (simp add: rounded_def u)
qed

lemma rounded_nonneg: "0 \<le> v \<Longrightarrow> 0 \<le> rounded v"
proof -
  assume "0 \<le> v"
  then have "0 \<le> v / ulp v" using ulp_pos [of v] by simp
  then have "rne 0 \<le> rne (v / ulp v)" by (rule rne_mono)
  then show ?thesis using ulp_pos [of v] by (simp add: rounded_def)
qed

lemma rounded_mono_nonneg:
  assumes "0 \<le> a" and "a \<le> b"
  shows "rounded a \<le> rounded b"
proof (cases "binade a = binade b")
  case True
  then have u: "ulp a = ulp b" by (simp add: ulp_def)
  have "a / ulp b \<le> b / ulp b" using assms ulp_pos [of b] by (simp add: divide_right_mono)
  then have "rne (a / ulp b) \<le> rne (b / ulp b)" by (rule rne_mono)
  then show ?thesis using ulp_pos [of b] by (simp add: rounded_def u)
next
  case False
  have "binade a \<le> binade b" using assms by (intro binade_mono) simp
  with False have lt: "binade a + 1 \<le> binade b" by simp
  have "real_of_int (binade a) + 1 = (of_int (binade a) - 52) + real 53" by simp
  then have "2 powr (real_of_int (binade a) + 1) = 2 powr ((of_int (binade a) - 52) + real 53)"
    by (simp only:)
  then have ua: "2 powr (of_int (binade a) + 1) = 2 ^ 53 * ulp a"
    by (simp only: powr_shift ulp_def)
  have "real_of_int (binade b) = (of_int (binade b) - 52) + real 52" by simp
  then have "2 powr (real_of_int (binade b)) = 2 powr ((of_int (binade b) - 52) + real 52)"
    by (simp only:)
  then have ub: "2 powr (of_int (binade b)) = 2 ^ 52 * ulp b"
    by (simp only: powr_shift ulp_def)
  have "a < 2 ^ 53 * ulp a" using binade_upper [of a] assms(1) by (simp add: ua)
  then have "a / ulp a \<le> of_int (2 ^ 53)"
    using ulp_pos [of a] by (simp add: pos_divide_le_eq)
  then have "rne (a / ulp a) \<le> rne (of_int (2 ^ 53))" by (rule rne_mono)
  then have "rne (a / ulp a) \<le> 2 ^ 53" by (simp only: rne_of_int)
  then have "real_of_int (rne (a / ulp a)) \<le> 2 ^ 53"
    using of_int_le_iff [of "rne (a / ulp a)" "2 ^ 53", where 'a = real] by simp
  then have 1: "rounded a \<le> 2 powr (of_int (binade a) + 1)"
    using ulp_pos [of a] by (simp add: rounded_def ua)
  have "- 1022 < binade b" using lt binade_ge [of a] by linarith
  then have "\<not> \<bar>b\<bar> < 2 powr (- 1022)" by (auto simp add: binade_def)
  then have "2 powr (of_int (binade b)) \<le> \<bar>b\<bar>" by (intro binade_lower) simp
  then have "2 ^ 52 * ulp b \<le> b" using assms by (simp add: ub)
  then have "of_int (2 ^ 52) \<le> b / ulp b"
    using ulp_pos [of b] by (simp add: pos_le_divide_eq)
  then have "rne (of_int (2 ^ 52)) \<le> rne (b / ulp b)" by (rule rne_mono)
  then have "2 ^ 52 \<le> rne (b / ulp b)" by (simp only: rne_of_int)
  then have "2 ^ 52 \<le> real_of_int (rne (b / ulp b))"
    using of_int_le_iff [of "2 ^ 52" "rne (b / ulp b)", where 'a = real] by simp
  then have 2: "2 powr (of_int (binade b)) \<le> rounded b"
    using ulp_pos [of b] by (simp add: rounded_def ub)
  have "(2::real) powr (of_int (binade a) + 1) \<le> 2 powr (of_int (binade b))"
    using lt by (intro powr_mono) simp_all
  with 1 2 show ?thesis by linarith
qed

lemma rnd_nearest:
  assumes "- 1022 \<le> e" and "2 powr (of_int e) \<le> \<bar>v\<bar>" and "\<bar>v\<bar> < 2 powr (of_int e + 1)"
    and "\<bar>v - of_int n * 2 powr (of_int e - 52)\<bar> < 2 powr (of_int e - 53)"
    and "\<bar>of_int n * 2 powr (of_int e - 52)\<bar> < (2::real) ^ 1024"
  shows "rnd v = Fin (of_int n * 2 powr (of_int e - 52))"
proof -
  from assms(5) have "of_int n * 2 powr (of_int e - 52) < (2::real) ^ 1024"
    "- (2 ^ 1024) < of_int n * 2 powr (real_of_int e - 52)" by linarith+
  then show ?thesis
    by (simp add: rnd_rounded rounded_nearest [OF assms(1-4)])
qed

lemma rnd_0 [simp]: "rnd 0 = Fin 0"
  by (rule rnd_tiny) simp

lemma rnd_int:
  assumes "\<bar>m\<bar> < 2 ^ 53"
  shows "rnd (of_int m) = Fin (of_int m)"
proof -
  have "\<bar>real_of_int m\<bar> < of_int (2 ^ 53)" using assms by (simp only: of_int_abs [symmetric] of_int_less_iff)
  also have "\<dots> < (2::real) ^ 1024" by simp
  finally show ?thesis
    using rnd_exact [of "of_int m" m 0] assms by simp
qed

lemma rnd_1 [simp]: "rnd 1 = Fin 1"
  using rnd_int [of 1] by simp

lemma G64_value: "G64 = Fin (5163989502626508 * 2 powr (- 86))"
proof -
  have "rnd (667430 / 10 ^ 16) = Fin (of_int 5163989502626508 * 2 powr (of_int (- 34) - 52))"
    by (rule rnd_nearest) (simp_all add: powr_minus_divide)
  then show ?thesis by (simp add: G64_def)
qed



lemma rnd_sqrt_nearest:
  fixes q :: real
  assumes e: "- 1022 \<le> e"
    and lo: "(2 powr (of_int e))\<^sup>2 \<le> q" and hi: "q < (2 powr (of_int e + 1))\<^sup>2"
    and below: "(of_int n * 2 powr (of_int e - 52) - 2 powr (of_int e - 53))\<^sup>2 < q"
    and above: "q < (of_int n * 2 powr (of_int e - 52) + 2 powr (of_int e - 53))\<^sup>2"
    and pos: "(0::real) \<le> of_int n * 2 powr (of_int e - 52) - 2 powr (of_int e - 53)"
    and fin: "\<bar>of_int n * 2 powr (of_int e - 52)\<bar> < (2::real) ^ 1024"
  shows "rnd (sqrt q) = Fin (of_int n * 2 powr (of_int e - 52))"
proof (rule rnd_nearest [OF e _ _ _ fin])
  have "(0::real) \<le> (2 powr (of_int e))\<^sup>2" by simp
  with lo have q0: "0 \<le> q" by linarith
  have s0: "0 \<le> sqrt q" using q0 by simp
  have "2 powr (of_int e) \<le> sqrt q" using lo by (intro real_le_rsqrt)
  then show "2 powr (of_int e) \<le> \<bar>sqrt q\<bar>" using s0 by simp
  have "sqrt q < 2 powr (of_int e + 1)" using hi by (intro real_less_lsqrt) simp_all
  then show "\<bar>sqrt q\<bar> < 2 powr (of_int e + 1)" using s0 by simp
  have 1: "of_int n * 2 powr (of_int e - 52) - 2 powr (of_int e - 53) < sqrt q"
    using below by (intro real_less_rsqrt)
  have "(0::real) \<le> of_int n * 2 powr (of_int e - 52) + 2 powr (of_int e - 53)"
  proof -
    have "(0::real) < 2 powr (of_int e - 53)" by simp
    with pos show ?thesis by linarith
  qed
  then have 2: "sqrt q < of_int n * 2 powr (of_int e - 52) + 2 powr (of_int e - 53)"
    using above by (intro real_less_lsqrt)
  from 1 2 show "\<bar>sqrt q - of_int n * 2 powr (of_int e - 52)\<bar> < 2 powr (of_int e - 53)"
    by linarith
qed






lemma rnd_dyadic:
  assumes "\<bar>m\<bar> < 2 ^ 53" and "- 1074 \<le> k" and "\<bar>of_int m * 2 powr (of_int k)\<bar> < (2::real) ^ 1024"
  shows "rnd (of_int m * 2 powr (of_int k)) = Fin (of_int m * 2 powr (of_int k))"
  by (rule rnd_exact [OF refl assms])

lemma rnd_mono_nonneg:
  assumes "0 \<le> a" and "a \<le> b"
  shows "dle (rnd a) (rnd b)"
proof -
  have "rounded a \<le> rounded b" by (rule rounded_mono_nonneg [OF assms])
  moreover have "0 \<le> rounded a" by (rule rounded_nonneg [OF assms(1)])
  ultimately show ?thesis by (simp add: rnd_rounded)
qed

lemma notNegative_rnd: "0 \<le> v \<Longrightarrow> notNegative (rnd v)"
  using rounded_nonneg [of v] by (simp add: rnd_rounded notNegative_def)


lemma notNegative_Fin [simp]: "notNegative (Fin v) \<longleftrightarrow> 0 \<le> v"
  by (simp add: notNegative_def)

lemma notPositive_Fin [simp]: "notPositive (Fin v) \<longleftrightarrow> v \<le> 0"
  by (simp add: notPositive_def)

lemma sign_simps [simp]:
  "notNegative PInf" "\<not> notNegative NInf" "notNegative NaN"
  "\<not> notPositive PInf" "notPositive NInf" "notPositive NaN"
  by (simp_all add: notNegative_def notPositive_def)

lemma notNegative_fmul: "notNegative a \<Longrightarrow> notNegative b \<Longrightarrow> notNegative (fmul a b)"
  by (cases a; cases b) (simp_all add: notNegative_rnd)







lemma notNegative_G64: "notNegative G64"
  by (simp add: G64_value)


lemma fsqrt_mono:
  assumes "dle a b" and "notNegative a"
  shows "dle (fsqrt a) (fsqrt b)"
proof (cases a; cases b)
  fix u v assume ab: "a = Fin u" "b = Fin v"
  with assms have "0 \<le> u" "u \<le> v" by simp_all
  then have "dle (rnd (sqrt u)) (rnd (sqrt v))" by (intro rnd_mono_nonneg) simp_all
  with \<open>0 \<le> u\<close> \<open>u \<le> v\<close> show ?thesis by (simp add: ab)
next
  fix u assume ab: "a = Fin u" "b = PInf"
  with assms have "0 \<le> u" by simp
  then have "0 \<le> rounded (sqrt u)" by (intro rounded_nonneg) simp
  with \<open>0 \<le> u\<close> show ?thesis by (simp add: ab rnd_rounded)
qed (use assms in simp_all)

section \<open>Negation in binary64\<close>

lemma fneg_fneg [simp]: "fneg (fneg a) = a"
  by (cases a) simp_all







lemma fneg_zero_iff [simp]: "fneg a = Fin 0 \<longleftrightarrow> a = Fin 0"
  by (cases a) simp_all



section \<open>Properties of Gravity.js in binary64\<close>


lemma rnd_G64_value: "rnd (5163989502626508 * 2 powr (- 86)) = Fin (5163989502626508 * 2 powr (- 86))"
  using rnd_dyadic [of 5163989502626508 "- 86"] by (simp add: powr_minus_divide)

lemma calculateForce64_coincident:
  "calculateForce64 m1 m2 \<lparr>x64 = Fin a, y64 = Fin b, z64 = Fin c\<rparr>
       \<lparr>x64 = Fin a, y64 = Fin b, z64 = Fin c\<rparr> = \<lparr>x64 = Fin 0, y64 = Fin 0, z64 = Fin 0\<rparr>"
  by (simp add: calculateForce64_def Let_def fsub_def)







text \<open>
  C8, counterexample. Mass 1 and the adjacent radii \<open>1\<close> and \<open>1 + 2\<^sup>-\<^sup>5\<^sup>2\<close>: the quotients
  \<open>G / r\<close> differ in the last bit and their square roots round to the same double.
\<close>

theorem adjacent_radii_counterexample:
  "(1::real) < 1 + 2 powr (- 52) \<and>
   rnd (1 + 2 powr (- 52)) = Fin (1 + 2 powr (- 52)) \<and>
   orbitalVelocity64 (Fin 1) (Fin 1) = Fin (4822503623614387 * 2 powr (- 69)) \<and>
   orbitalVelocity64 (Fin 1) (Fin (1 + 2 powr (- 52))) = Fin (4822503623614387 * 2 powr (- 69))"
proof -
  have r2: "rnd (1 + 2 powr (- 52)) = Fin (1 + 2 powr (- 52))"
    using rnd_dyadic [of 4503599627370497 "- 52"] by (simp add: powr_minus_divide)
  have d: "rnd (5163989502626508 * 2 powr (- 86) / (1 + 2 powr (- 52))) =
      Fin (5163989502626507 * 2 powr (- 86))"
  proof -
    have "rnd (5163989502626508 * 2 powr (- 86) / (1 + 2 powr (- 52))) =
        Fin (of_int 5163989502626507 * 2 powr (of_int (- 34) - 52))"
      by (rule rnd_nearest) (simp_all add: powr_minus_divide)
    then show ?thesis by simp
  qed
  have s1: "rnd (sqrt (5163989502626508 * 2 powr (- 86))) = Fin (4822503623614387 * 2 powr (- 69))"
  proof -
    have "rnd (sqrt (5163989502626508 * 2 powr (- 86))) =
        Fin (of_int 4822503623614387 * 2 powr (of_int (- 17) - 52))"
      by (rule rnd_sqrt_nearest) (simp_all add: powr_minus_divide power2_eq_square)
    then show ?thesis by simp
  qed
  have s2: "rnd (sqrt (5163989502626507 * 2 powr (- 86))) = Fin (4822503623614387 * 2 powr (- 69))"
  proof -
    have "rnd (sqrt (5163989502626507 * 2 powr (- 86))) =
        Fin (of_int 4822503623614387 * 2 powr (of_int (- 17) - 52))"
      by (rule rnd_sqrt_nearest) (simp_all add: powr_minus_divide power2_eq_square)
    then show ?thesis by simp
  qed
  have "(0::real) < 1 + 2 powr (- 52)" by (simp add: add_pos_pos)
  then have nz: "(1::real) + 2 powr (- 52) \<noteq> 0" by simp
  show ?thesis
    by (simp add: orbitalVelocity64_def G64_value rnd_G64_value r2 d s1 s2 nz)
qed

text \<open>
  C8. For a positive mass, \<open>orbitalVelocity m r = sqrt (G m / r)\<close>, every operation
  rounded, does not increase with \<open>r\<close> over positive radii: for \<open>0 < r1 < r2\<close> the
  value at \<open>r2\<close> is at most the value at \<open>r1\<close>, and neither is \<open>NaN\<close>.
\<close>

theorem orbitalVelocity64_monotone:
  assumes "0 < m" and "0 < r1" and "r1 < r2"
  shows "orbitalVelocity64 (Fin m) (Fin r1) = fsqrt (fdiv (fmul G64 (Fin m)) (Fin r1)) \<and>
         dle (orbitalVelocity64 (Fin m) (Fin r2)) (orbitalVelocity64 (Fin m) (Fin r1))"
proof -
  define g where "g = fmul G64 (Fin m)"
  have g0: "notNegative g"
    unfolding g_def using assms(1) by (intro notNegative_fmul notNegative_G64) simp
  have "g \<noteq> NaN" by (simp add: g_def G64_value rnd_rounded)
  have q: "dle (fdiv g (Fin r2)) (fdiv g (Fin r1)) \<and> notNegative (fdiv g (Fin r2))"
  proof (cases g)
    case (Fin c)
    with g0 have c: "0 \<le> c" by simp
    have "c / r2 \<le> c / r1" using c assms by (simp add: frac_le)
    moreover have "0 \<le> c / r2" using c assms by simp
    ultimately show ?thesis using assms by (simp add: Fin rnd_mono_nonneg notNegative_rnd)
  next
    case PInf
    then show ?thesis using assms by simp
  next
    case NInf
    with g0 show ?thesis by simp
  next
    case NaN
    with \<open>g \<noteq> NaN\<close> show ?thesis by simp
  qed
  then have "dle (fsqrt (fdiv g (Fin r2))) (fsqrt (fdiv g (Fin r1)))"
    by (intro fsqrt_mono) simp_all
  then show ?thesis by (simp add: orbitalVelocity64_def g_def)
qed

theorem orbitalVelocity64_monotone_witness:
  "(0::real) < 1 \<and> (1::real) < 2 \<and>
   dle (orbitalVelocity64 (Fin 1) (Fin 2)) (orbitalVelocity64 (Fin 1) (Fin 1))"
proof -
  have "dle (orbitalVelocity64 (Fin 1) (Fin 2)) (orbitalVelocity64 (Fin 1) (Fin 1))"
    using orbitalVelocity64_monotone [of 1 1 2, THEN conjunct2] by simp
  then show ?thesis by simp
qed

end
